theory Spec2Isabelle
  imports Main "HOL-Library.Sublist"
begin

section \<open>JavaScript values used by the page controller\<close>

text \<open>
  The controller of \<^verbatim>\<open>static/progress.js\<close> is embedded as functions on an explicit page
  state. A JavaScript string is a list of code units; the type \<^typ>\<open>string\<close> holds the code
  units below 256, which covers every literal of the source. A property that a JSON
  object may lack is an \<^typ>\<open>string option\<close>: \<open>None\<close> is the absent property
  (\<^verbatim>\<open>undefined\<close>).
\<close>

definition js_whitespace :: "char \<Rightarrow> bool" where
  \<comment> \<open>The white space and line terminator code units below 256 that \<^verbatim>\<open>trim\<close> strips:
      TAB, LF, VT, FF, CR, SP and NBSP.\<close>
  "js_whitespace c =
     (c = CHR 0x09 \<or> c = CHR 0x0A \<or> c = CHR 0x0B \<or> c = CHR 0x0C \<or> c = CHR 0x0D \<or>
      c = CHR 0x20 \<or> c = CHR 0xA0)"

definition trim :: "string \<Rightarrow> string" where
  \<comment> \<open>\<^verbatim>\<open>String.prototype.trim\<close>\<close>
  "trim s = rev (dropWhile js_whitespace (rev (dropWhile js_whitespace s)))"

fun js_includes :: "string \<Rightarrow> string \<Rightarrow> bool" where
  \<comment> \<open>\<^verbatim>\<open>s.includes(p)\<close>: \<open>p\<close> occurs in \<open>s\<close> at some position\<close>
  "js_includes [] p = (p = [])"
| "js_includes (c # cs) p = (prefix p (c # cs) \<or> js_includes cs p)"

definition truthy :: "string option \<Rightarrow> bool" where
  \<comment> \<open>an absent value and the empty string are falsy\<close>
  "truthy v = (case v of None \<Rightarrow> False | Some x \<Rightarrow> x \<noteq> [])"

definition or_else :: "string option \<Rightarrow> string \<Rightarrow> string" where
  \<comment> \<open>\<^verbatim>\<open>v || d\<close>\<close>
  "or_else v d = (case v of None \<Rightarrow> d | Some x \<Rightarrow> if x = [] then d else x)"

definition textContent :: "string option \<Rightarrow> string" where
  \<comment> \<open>the text an element shows after \<^verbatim>\<open>el.textContent = v\<close>; the attribute is nullable,
      so an absent value leaves the element empty\<close>
  "textContent v = (case v of None \<Rightarrow> [] | Some x \<Rightarrow> x)"

definition template :: "string option \<Rightarrow> string" where
  \<comment> \<open>a value interpolated into a template literal or assigned to a string attribute\<close>
  "template v = (case v of None \<Rightarrow> ''undefined'' | Some x \<Rightarrow> x)"

section \<open>Server responses\<close>

text \<open>
  The JSON objects of the three endpoints. A format carries every field of the data
  model; the properties of the other objects may be absent.
\<close>

record format_option =
  format_id :: string
  type :: string
  resolution :: string
  ext :: string
  filesize :: string
  quality :: int

record video_info =
  error :: "string option"
  title :: "string option"
  uploader :: "string option"
  duration :: "string option"
  thumbnail :: "string option"
  formats :: "format_option list option"

record download_started =
  download_error :: "string option"
  download_id :: "string option"

text \<open>
  A progress report. Numbers of the JSON document (\<open>percent\<close>) are held by their
  JavaScript string rendering.
\<close>

record progress =
  status :: "string option"
  percent :: "string option"
  speed :: "string option"
  progress_filesize :: "string option"
  eta :: "string option"
  message :: "string option"
  filename :: "string option"

text \<open>
  How an awaited \<^verbatim>\<open>fetch(...)\<close> followed by \<^verbatim>\<open>response.json()\<close> settles: either one of
  the two promises rejects with an error carrying a message (network or parse
  failure), or the body parses to an object and \<^verbatim>\<open>response.ok\<close> is known.
\<close>

datatype 'a settled = Rejected string | Response bool 'a

section \<open>Requests and the page state\<close>

datatype json_body =
    Fetch_body string                      \<comment> \<open>\<^verbatim>\<open>{url}\<close>\<close>
  | Download_body string string string     \<comment> \<open>\<^verbatim>\<open>{url, format_id, type}\<close>\<close>

datatype http_request = POST string json_body | GET string

datatype fetch_label = Fetching | Fetch_Formats

datatype thumbnail_src = Thumbnail_url string | No_thumbnail_svg

text \<open>
  A row is built by interpolating the fields of a format into an HTML template that
  the browser then parses. The parser hands a field back as it was written when the
  field holds none of the characters that the tokenizer treats specially in a quoted
  attribute value or in text: the double quote ends an attribute value, the ampersand
  starts a character reference, \<^verbatim>\<open><\<close> opens a tag, NUL is replaced and CR is normalised
  to LF. A format all of whose string fields are free of these is \<open>plain\<close>, and
  \<open>createFormatElement\<close> below is the row of a plain format. For other formats the
  markup can hold further attributes and elements, which the rows of the model do not
  describe.
\<close>

definition html_meta :: "char \<Rightarrow> bool" where
  "html_meta c =
     (c = CHR 0x22 \<or> c = CHR 0x26 \<or> c = CHR 0x3C \<or> c = CHR 0x00 \<or> c = CHR 0x0D)"

definition html_plain :: "string \<Rightarrow> bool" where
  "html_plain x = list_all (\<lambda>c. \<not> html_meta c) x"

definition plain_format :: "format_option \<Rightarrow> bool" where
  "plain_format f =
     (html_plain (format_id f) \<and> html_plain (type f) \<and> html_plain (resolution f) \<and>
      html_plain (ext f) \<and> html_plain (filesize f))"

text \<open>
  A rendered \<^verbatim>\<open>.format-option\<close> row: its \<^verbatim>\<open>selected\<close> class, and the radio input inside
  it with its \<^verbatim>\<open>checked\<close> flag, \<^verbatim>\<open>value\<close> and \<^verbatim>\<open>data-type\<close> attributes. Of the labels of
  a row, the upper-cased type and extension are left out. The class of the type badge
  is looked up in an object literal, so a type that names a member of
  \<^verbatim>\<open>Object.prototype\<close> finds that member instead of the default class.
\<close>

datatype badge = Badge_class string | Inherited_member string

record format_row =
  row_selected :: bool
  radio_checked :: bool
  radio_value :: string
  radio_data_type :: string
  row_quality_class :: string
  row_badge_class :: badge
  row_resolution :: string
  row_filesize :: string
  row_description :: string

text \<open>
  The page state: the two fields of the \<^verbatim>\<open>VideoDownloader\<close> object, the part of the
  browser the controller talks to (the interval timers that are installed, the next
  timer handle, the requests issued so far, the alerts shown, the errors logged to
  the console (the label and the error's message), the windows opened) and the DOM
  elements it reads and writes. An element's \<open>_hidden\<close> flag is its \<^verbatim>\<open>d-none\<close> class.
\<close>

record state =
  currentDownloadId :: "string option"
  progressInterval :: "nat option"
  timers :: "nat set"
  next_timer :: nat
  requests :: "http_request list"
  alerts :: "string list"
  console_errors :: "(string \<times> string) list"
  windows_opened :: "string list"
  videoUrl :: string
  fetchBtn_disabled :: bool
  fetchBtn_innerHTML :: fetch_label
  videoInfoCard_hidden :: bool
  formatsCard_hidden :: bool
  progressCard_hidden :: bool
  downloadComplete_hidden :: bool
  downloadError_hidden :: bool
  progressContent_hidden :: bool
  videoTitle :: string
  videoUploader :: string
  videoDuration :: string
  videoThumbnail_src :: thumbnail_src
  videoThumbnail_alt :: string
  formatsList_warning :: bool
  formatsList_rows :: "format_row list"
  downloadBtn_display :: string
  downloadBtn_disabled :: bool
  progressBar_width :: string
  progressBar_colour :: "string option"
  progressPercent :: string
  progressSpeed :: string
  fileSize :: string
  eta_text :: string
  statusMessage :: string
  currentFilename :: string
  completedFilename :: string
  errorMessage :: string

section \<open>The controller\<close>

definition showError :: "string \<Rightarrow> state \<Rightarrow> state" where
  "showError m s = s\<lparr>alerts := alerts s @ [''Error: '' @ m]\<rparr>"

definition resetUI :: "state \<Rightarrow> state" where
  "resetUI s =
     s\<lparr>videoInfoCard_hidden := True,
       formatsCard_hidden := True,
       progressCard_hidden := True,
       downloadComplete_hidden := True,
       downloadError_hidden := True,
       progressContent_hidden := False\<rparr>"

definition displayVideoInfo :: "video_info \<Rightarrow> state \<Rightarrow> state" where
  "displayVideoInfo v s =
     (let s1 = s\<lparr>videoInfoCard_hidden := False,
                  videoTitle := textContent (title v),
                  videoUploader := textContent (uploader v),
                  videoDuration := textContent (duration v)\<rparr>
      in case thumbnail v of
           None \<Rightarrow> s1\<lparr>videoThumbnail_src := No_thumbnail_svg\<rparr>
         | Some src \<Rightarrow>
             if src = [] then s1\<lparr>videoThumbnail_src := No_thumbnail_svg\<rparr>
             else s1\<lparr>videoThumbnail_src := Thumbnail_url src,
                     videoThumbnail_alt := template (title v)\<rparr>)"

definition object_prototype_members :: "string list" where
  \<comment> \<open>the property names every object literal inherits; each holds a truthy value\<close>
  "object_prototype_members =
     [''constructor'', ''hasOwnProperty'', ''isPrototypeOf'', ''propertyIsEnumerable'',
      ''toLocaleString'', ''toString'', ''valueOf'', ''__proto__'', ''__defineGetter__'',
      ''__defineSetter__'', ''__lookupGetter__'', ''__lookupSetter__'']"

definition getTypeBadge :: "string \<Rightarrow> badge" where
  \<comment> \<open>\<^verbatim>\<open>badges[type] || 'bg-secondary'\<close>: what is interpolated as the class of the badge; the
      upper-cased label beside it is not part of the model\<close>
  "getTypeBadge t =
     (if t = ''video'' then Badge_class ''bg-primary''
      else if t = ''audio'' then Badge_class ''bg-success''
      else if t = ''video+audio'' then Badge_class ''bg-info''
      else if t \<in> set object_prototype_members then Inherited_member t
      else Badge_class ''bg-secondary'')"

definition getQualityClass :: "int \<Rightarrow> string" where
  "getQualityClass q =
     (if q \<ge> 1080 then ''text-success''
      else if q \<ge> 720 then ''text-info''
      else if q \<ge> 480 then ''text-warning''
      else ''text-muted'')"

definition getFormatDescription :: "format_option \<Rightarrow> string" where
  "getFormatDescription f =
     (if type f = ''audio'' then ''Audio Only''
      else if type f = ''video'' then ''Video Only''
      else if type f = ''video+audio'' then ''Video + Audio''
      else [])"

definition createFormatElement :: "format_option \<Rightarrow> format_row" where
  \<comment> \<open>the row that the parsed template yields for a plain format\<close>
  "createFormatElement f =
     \<lparr>row_selected = False,
      radio_checked = False,
      radio_value = format_id f,
      radio_data_type = type f,
      row_quality_class = getQualityClass (quality f),
      row_badge_class = getTypeBadge (type f),
      row_resolution = resolution f,
      row_filesize = filesize f,
      row_description = getFormatDescription f\<rparr>"

definition check_radio :: "nat \<Rightarrow> format_row list \<Rightarrow> format_row list" where
  \<comment> \<open>\<^verbatim>\<open>radio.checked = true\<close> on the radio of row \<open>i\<close>: the radios share the name
      \<^verbatim>\<open>format\<close>, so the browser unchecks the others of the group\<close>
  "check_radio i rows =
     (map (\<lambda>r. r\<lparr>radio_checked := False\<rparr>) rows)[i := (rows ! i)\<lparr>radio_checked := True\<rparr>]"

definition click_format :: "nat \<Rightarrow> state \<Rightarrow> state" where
  \<comment> \<open>the click listener that \<^verbatim>\<open>createFormatElement\<close> installs, run for row \<open>i\<close> of the
      list; a click on a row that does not exist runs nothing\<close>
  "click_format i s =
     (if i < length (formatsList_rows s) then
        let cleared = map (\<lambda>opt. opt\<lparr>row_selected := False\<rparr>) (formatsList_rows s);
            marked = cleared[i := (cleared ! i)\<lparr>row_selected := True\<rparr>]
        in s\<lparr>formatsList_rows := check_radio i marked\<rparr>
      else s)"

definition appendChild :: "format_row \<Rightarrow> state \<Rightarrow> state" where
  "appendChild r s = s\<lparr>formatsList_rows := formatsList_rows s @ [r]\<rparr>"

definition displayFormats :: "format_option list option \<Rightarrow> state \<Rightarrow> state" where
  "displayFormats fs s =
     (let s1 = s\<lparr>formatsList_warning := False, formatsList_rows := []\<rparr>
      in if fs = None \<or> fs = Some [] then
           s1\<lparr>formatsList_warning := True, downloadBtn_display := ''none''\<rparr>
         else
           let s2 = s1\<lparr>downloadBtn_display := ''block''\<rparr>;
               s3 = fold (\<lambda>f. appendChild (createFormatElement f)) (the fs) s2;
               s4 = (if formatsList_rows s3 \<noteq> [] then click_format 0 s3 else s3)
           in s4\<lparr>formatsCard_hidden := False\<rparr>)"

definition fetchFormats :: "state \<Rightarrow> state" where
  \<comment> \<open>\<^verbatim>\<open>fetchFormats\<close> up to its first \<^verbatim>\<open>await\<close>\<close>
  "fetchFormats s =
     (let url = trim (videoUrl s)
      in if url = [] then showError ''Please enter a video URL'' s
         else
           let s1 = resetUI s;
               s2 = s1\<lparr>fetchBtn_disabled := True, fetchBtn_innerHTML := Fetching\<rparr>
           in s2\<lparr>requests := requests s2 @ [POST ''/fetch_formats'' (Fetch_body url)]\<rparr>)"

definition fetchFormats_settled :: "video_info settled \<Rightarrow> state \<Rightarrow> state" where
  \<comment> \<open>the rest of \<^verbatim>\<open>fetchFormats\<close>, run when the request settles\<close>
  "fetchFormats_settled r s =
     (let s1 = (case r of
                  Rejected m \<Rightarrow> showError m s
                | Response ok data \<Rightarrow>
                    if \<not> ok
                    then showError (or_else (error data) ''Failed to fetch video information'') s
                    else displayFormats (formats data) (displayVideoInfo data s))
      in s1\<lparr>fetchBtn_disabled := False, fetchBtn_innerHTML := Fetch_Formats\<rparr>)"

definition getDownloadType :: "string \<Rightarrow> string" where
  "getDownloadType formatType =
     (if formatType = ''audio'' \<or> js_includes formatType ''mp3'' then ''audio''
      else ''video'')"

definition showProgressError :: "string option \<Rightarrow> state \<Rightarrow> state" where
  "showProgressError m s =
     s\<lparr>progressContent_hidden := True,
       downloadError_hidden := False,
       errorMessage := textContent m\<rparr>"

definition showDownloadComplete :: "progress \<Rightarrow> state \<Rightarrow> state" where
  "showDownloadComplete p s =
     s\<lparr>progressContent_hidden := True,
       downloadComplete_hidden := False,
       completedFilename := textContent (filename p)\<rparr>"

definition updateProgressUI :: "progress \<Rightarrow> state \<Rightarrow> state" where
  \<comment> \<open>\<open>progressBar_width\<close> is the string assigned to \<^verbatim>\<open>style.width\<close>; \<open>progressBar_colour\<close> is
      the one of the four colour classes that the bar carries\<close>
  "updateProgressUI p s =
     s\<lparr>progressBar_width := template (percent p) @ ''%'',
       progressPercent := template (percent p) @ ''%'',
       progressSpeed := textContent (speed p),
       fileSize := textContent (progress_filesize p),
       eta_text := textContent (eta p),
       statusMessage := textContent (message p),
       currentFilename := or_else (filename p) ''-'',
       progressBar_colour :=
         (if status p = Some ''downloading'' then Some ''bg-primary''
          else if status p = Some ''processing'' then Some ''bg-warning''
          else if status p = Some ''error'' then Some ''bg-danger''
          else if status p = Some ''completed'' then Some ''bg-success''
          else None)\<rparr>"

definition clearInterval :: "nat option \<Rightarrow> state \<Rightarrow> state" where
  \<comment> \<open>uninstalls the timer with that handle, if there is one\<close>
  "clearInterval h s = (case h of None \<Rightarrow> s | Some n \<Rightarrow> s\<lparr>timers := timers s - {n}\<rparr>)"

definition startProgressTracking :: "state \<Rightarrow> state" where
  \<comment> \<open>\<^verbatim>\<open>setInterval\<close> installs a timer under a fresh positive handle and returns it\<close>
  "startProgressTracking s =
     (let s1 = (if progressInterval s \<noteq> None \<and> progressInterval s \<noteq> Some 0
                then clearInterval (progressInterval s) s else s);
          h = next_timer s1
      in s1\<lparr>timers := insert h (timers s1),
              next_timer := Suc h,
              progressInterval := Some h\<rparr>)"

definition progress_tick :: "state \<Rightarrow> state" where
  \<comment> \<open>the interval callback up to its first \<^verbatim>\<open>await\<close>\<close>
  "progress_tick s =
     (if \<not> truthy (currentDownloadId s) then s
      else s\<lparr>requests := requests s @ [GET (''/progress/'' @ template (currentDownloadId s))]\<rparr>)"

definition progress_settled :: "progress settled \<Rightarrow> state \<Rightarrow> state" where
  \<comment> \<open>the rest of the interval callback, run when the progress request settles\<close>
  "progress_settled r s =
     (case r of
        Rejected m \<Rightarrow>
          s\<lparr>console_errors := console_errors s @ [(''Error fetching progress:'', m)]\<rparr>
      | Response ok p \<Rightarrow>
          let s1 = updateProgressUI p s
          in if status p = Some ''completed'' then
               (showDownloadComplete p (clearInterval (progressInterval s1) s1))
                 \<lparr>downloadBtn_disabled := False\<rparr>
             else if status p = Some ''error'' then
               (showProgressError (message p) (clearInterval (progressInterval s1) s1))
                 \<lparr>downloadBtn_disabled := False\<rparr>
             else s1)"

definition startDownload :: "state \<Rightarrow> state" where
  \<comment> \<open>\<^verbatim>\<open>startDownload\<close> up to its first \<^verbatim>\<open>await\<close>; the selected format is the first
      checked radio of the document\<close>
  "startDownload s =
     (case find radio_checked (formatsList_rows s) of
        None \<Rightarrow> showError ''Please select a format'' s
      | Some selectedFormat \<Rightarrow>
          let url = trim (videoUrl s);
              formatId = radio_value selectedFormat;
              downloadType = getDownloadType (radio_data_type selectedFormat);
              s1 = s\<lparr>progressCard_hidden := False,
                     progressContent_hidden := False,
                     downloadComplete_hidden := True,
                     downloadError_hidden := True\<rparr>;
              s2 = s1\<lparr>downloadBtn_disabled := True\<rparr>
          in s2\<lparr>requests :=
                  requests s2 @ [POST ''/download'' (Download_body url formatId downloadType)]\<rparr>)"

definition startDownload_settled :: "download_started settled \<Rightarrow> state \<Rightarrow> state" where
  \<comment> \<open>the rest of \<^verbatim>\<open>startDownload\<close>, run when the request settles\<close>
  "startDownload_settled r s =
     (case r of
        Rejected m \<Rightarrow> (showProgressError (Some m) s)\<lparr>downloadBtn_disabled := False\<rparr>
      | Response ok data \<Rightarrow>
          if \<not> ok then
            (showProgressError (Some (or_else (download_error data) ''Failed to start download'')) s)
              \<lparr>downloadBtn_disabled := False\<rparr>
          else startProgressTracking (s\<lparr>currentDownloadId := download_id data\<rparr>))"

definition downloadFile :: "state \<Rightarrow> state" where
  \<comment> \<open>the click listener of \<^verbatim>\<open>downloadFileBtn\<close>\<close>
  "downloadFile s =
     (if truthy (currentDownloadId s)
      then s\<lparr>windows_opened :=
                windows_opened s @ [''/download_file/'' @ template (currentDownloadId s)]\<rparr>
      else s)"

definition resetDownload :: "state \<Rightarrow> state" where
  "resetDownload s =
     s\<lparr>progressCard_hidden := True,
       downloadError_hidden := True,
       downloadBtn_disabled := False\<rparr>"

section \<open>The event loop\<close>

text \<open>
  The page runs one event at a time. Each listener and each continuation after an
  \<^verbatim>\<open>await\<close> is one event; between the two awaits of a request no state is touched, so a
  request settles in one event. A timer fires only while it is installed. The
  listeners run whatever the \<^verbatim>\<open>disabled\<close> flag of their control says, and a request may
  settle at any later time, so the runs of the model include every run of the page.
\<close>

datatype event =
    Type_url string
  | Submit_url
  | Formats_settled "video_info settled"
  | Click_format nat
  | Click_download
  | Download_settled "download_started settled"
  | Timer_fires nat
  | Progress_settled "progress settled"
  | Click_download_file
  | Reset_download

fun step :: "event \<Rightarrow> state \<Rightarrow> state" where
  "step (Type_url u) s = s\<lparr>videoUrl := u\<rparr>"
| "step Submit_url s = fetchFormats s"
| "step (Formats_settled r) s = fetchFormats_settled r s"
| "step (Click_format i) s = click_format i s"
| "step Click_download s = startDownload s"
| "step (Download_settled r) s = startDownload_settled r s"
| "step (Timer_fires h) s = (if h \<in> timers s then progress_tick s else s)"
| "step (Progress_settled r) s = progress_settled r s"
| "step Click_download_file s = downloadFile s"
| "step Reset_download s = resetDownload s"

definition run :: "event list \<Rightarrow> state \<Rightarrow> state" where
  "run evs s = fold step evs s"

definition page_loaded :: "state \<Rightarrow> bool" where
  \<comment> \<open>the state the constructor leaves: nothing tracked, no timer installed\<close>
  "page_loaded s =
     (currentDownloadId s = None \<and> progressInterval s = None \<and> timers s = {} \<and>
      0 < next_timer s)"

section \<open>Notions used in the statements\<close>

definition select_only :: "nat \<Rightarrow> format_row list \<Rightarrow> format_row list" where
  \<comment> \<open>the rows with row \<open>i\<close>, and no other, selected and checked\<close>
  "select_only i rows =
     map (\<lambda>(j, r). r\<lparr>row_selected := (j = i), radio_checked := (j = i)\<rparr>) (enumerate 0 rows)"

definition timers_ok :: "state \<Rightarrow> bool" where
  \<comment> \<open>every installed timer is the one whose handle the controller holds\<close>
  "timers_ok s =
     (0 < next_timer s \<and>
      timers s \<subseteq> {h. h \<noteq> 0 \<and> h < next_timer s \<and> progressInterval s = Some h})"

fun is_download_start :: "event \<Rightarrow> bool" where
  "is_download_start (Download_settled (Response True data)) = True"
| "is_download_start e = False"

fun started :: "event \<Rightarrow> string list" where
  \<comment> \<open>the download id that the event makes the tracked one, if any\<close>
  "started (Download_settled (Response True data)) =
     (case download_id data of None \<Rightarrow> [] | Some d \<Rightarrow> [d])"
| "started e = []"

fun progress_id :: "http_request \<Rightarrow> string option" where
  \<comment> \<open>the download id of a request to the progress endpoint\<close>
  "progress_id (GET path) =
     (if prefix ''/progress/'' path then Some (drop 10 path) else None)"
| "progress_id (POST path body) = None"

definition polled :: "http_request list \<Rightarrow> string list" where
  "polled rs = List.map_filter progress_id rs"

definition issued_since :: "state \<Rightarrow> state \<Rightarrow> http_request list" where
  \<comment> \<open>the requests of \<open>s'\<close> issued after \<open>s\<close>\<close>
  "issued_since s s' = drop (length (requests s)) (requests s')"

section \<open>Concrete pages and responses\<close>

text \<open>
  A page as it is before the first event, the responses of the scenario of the
  specification, and the page that scenario leads to. The theorems below are
  instantiated on them.
\<close>

definition fresh_page :: state where
  "fresh_page =
     \<lparr>currentDownloadId = None,
      progressInterval = None,
      timers = {},
      next_timer = 1,
      requests = [],
      alerts = [],
      console_errors = [],
      windows_opened = [],
      videoUrl = [],
      fetchBtn_disabled = False,
      fetchBtn_innerHTML = Fetch_Formats,
      videoInfoCard_hidden = True,
      formatsCard_hidden = True,
      progressCard_hidden = True,
      downloadComplete_hidden = True,
      downloadError_hidden = True,
      progressContent_hidden = False,
      videoTitle = [],
      videoUploader = [],
      videoDuration = [],
      videoThumbnail_src = No_thumbnail_svg,
      videoThumbnail_alt = [],
      formatsList_warning = False,
      formatsList_rows = [],
      downloadBtn_display = ''block'',
      downloadBtn_disabled = False,
      progressBar_width = ''0%'',
      progressBar_colour = None,
      progressPercent = ''0%'',
      progressSpeed = [],
      fileSize = [],
      eta_text = [],
      statusMessage = [],
      currentFilename = ''-'',
      completedFilename = [],
      errorMessage = []\<rparr>"

definition example_formats :: "format_option list" where
  "example_formats =
     [\<lparr>format_id = ''22'', type = ''video+audio'', resolution = ''720p'', ext = ''mp4'',
       filesize = ''50MB'', quality = 720\<rparr>,
      \<lparr>format_id = ''140'', type = ''audio'', resolution = ''audio only'', ext = ''m4a'',
       filesize = ''3MB'', quality = 0\<rparr>]"

definition mp3_named_formats :: "format_option list" where
  \<comment> \<open>one video format whose identifier contains \<^verbatim>\<open>mp3\<close>\<close>
  "mp3_named_formats =
     [\<lparr>format_id = ''mp3-128k'', type = ''video'', resolution = ''720p'', ext = ''mp4'',
       filesize = ''50MB'', quality = 720\<rparr>]"

definition example_info :: video_info where
  "example_info =
     \<lparr>error = None, title = Some ''v'', uploader = Some ''u'', duration = Some ''1:00'',
      thumbnail = None, formats = Some example_formats\<rparr>"

definition example_started :: download_started where
  "example_started = \<lparr>download_error = None, download_id = Some ''abc123''\<rparr>"


definition polling_page :: state where
  \<comment> \<open>a page on which the download \<^verbatim>\<open>abc123\<close> is tracked and polled\<close>
  "polling_page =
     run [Type_url ''https://example.com/v'', Submit_url,
          Formats_settled (Response True example_info), Click_download,
          Download_settled (Response True example_started)] fresh_page"

definition example_progress :: "string \<Rightarrow> progress" where
  "example_progress st =
     \<lparr>status = Some st, percent = Some ''100'', speed = Some ''0 B/s'',
      progress_filesize = Some ''50MB'', eta = Some ''0s'', message = Some ''done'',
      filename = Some ''v.mp4''\<rparr>"

section \<open>Strings\<close>

lemma js_includes_iff: "js_includes s p \<longleftrightarrow> (\<exists>a b. s = a @ p @ b)"
proof (induction s)
  case Nil
  then show ?case by auto
next
  case (Cons c cs)
  show ?case
  proof
    assume "js_includes (c # cs) p"
    then consider "prefix p (c # cs)" | "js_includes cs p" by auto
    then show "\<exists>a b. c # cs = a @ p @ b"
    proof cases
      case 1
      then obtain b where "c # cs = p @ b" by (auto simp: prefix_def)
      then have "c # cs = [] @ p @ b" by simp
      then show ?thesis by blast
    next
      case 2
      with Cons.IH obtain a b where "cs = a @ p @ b" by blast
      then have "c # cs = (c # a) @ p @ b" by simp
      then show ?thesis by blast
    qed
  next
    assume "\<exists>a b. c # cs = a @ p @ b"
    then obtain a b where ab: "c # cs = a @ p @ b" by blast
    show "js_includes (c # cs) p"
    proof (cases a)
      case Nil
      with ab have "prefix p (c # cs)" by (simp add: prefix_def)
      then show ?thesis by simp
    next
      case (Cons x a')
      with ab have "cs = a' @ p @ b" by simp
      with Cons.IH have "js_includes cs p" by blast
      then show ?thesis by simp
    qed
  qed
qed

section \<open>Rendering and selecting formats\<close>

lemma fold_appendChild:
  "fold (\<lambda>f. appendChild (createFormatElement f)) fs s =
     s\<lparr>formatsList_rows := formatsList_rows s @ map createFormatElement fs\<rparr>"
  by (induction fs arbitrary: s) (simp_all add: appendChild_def)

lemma click_format_eq:
  assumes "i < length (formatsList_rows s)"
  shows "click_format i s = s\<lparr>formatsList_rows := select_only i (formatsList_rows s)\<rparr>"
proof -
  let ?rows = "formatsList_rows s"
  let ?cleared = "map (\<lambda>opt. opt\<lparr>row_selected := False\<rparr>) ?rows"
  have "check_radio i (?cleared[i := (?cleared ! i)\<lparr>row_selected := True\<rparr>]) = select_only i ?rows"
    using assms
    by (intro nth_equalityI) (auto simp: check_radio_def select_only_def nth_enumerate_eq nth_list_update)
  with assms show ?thesis
    by (simp add: click_format_def Let_def)
qed

lemma select_only_length [simp]: "length (select_only i rows) = length rows"
  by (simp add: select_only_def)

lemma select_only_nth:
  "j < length rows \<Longrightarrow>
     select_only i rows ! j = (rows ! j)\<lparr>row_selected := (j = i), radio_checked := (j = i)\<rparr>"
  by (simp add: select_only_def nth_enumerate_eq)



lemma find_select_only:
  assumes "i < length rows"
  shows "find radio_checked (select_only i rows) =
           Some ((rows ! i)\<lparr>row_selected := True, radio_checked := True\<rparr>)"
proof -
  have "radio_checked (select_only i rows ! i)"
    and "select_only i rows ! i = (rows ! i)\<lparr>row_selected := True, radio_checked := True\<rparr>"
    and "\<forall>j<i. \<not> radio_checked (select_only i rows ! j)"
    using assms by (simp_all add: select_only_nth)
  with assms show ?thesis
    unfolding find_Some_iff by (intro exI[of _ i]) simp
qed

lemma select_only_idem [simp]: "select_only i (select_only k rows) = select_only i rows"
  by (intro nth_equalityI) (simp_all add: select_only_nth)

lemma displayFormats_some:
  assumes "fs \<noteq> []"
  shows "displayFormats (Some fs) s =
           s\<lparr>formatsList_warning := False,
             formatsList_rows := select_only 0 (map createFormatElement fs),
             downloadBtn_display := ''block'',
             formatsCard_hidden := False\<rparr>"
  using assms by (simp add: displayFormats_def Let_def fold_appendChild click_format_eq)

lemma displayFormats_empty:
  assumes "fs = None \<or> fs = Some []"
  shows "displayFormats fs s =
           s\<lparr>formatsList_warning := True, formatsList_rows := [], downloadBtn_display := ''none''\<rparr>"
  using assms by (auto simp: displayFormats_def Let_def)

lemma startDownload_request:
  assumes "find radio_checked (formatsList_rows s) = Some r"
  shows "requests (startDownload s) =
           requests s @ [POST ''/download''
             (Download_body (trim (videoUrl s)) (radio_value r) (getDownloadType (radio_data_type r)))]"
  using assms by (simp add: startDownload_def Let_def)

lemma getDownloadType_audio_iff:
  "getDownloadType t = ''audio'' \<longleftrightarrow> t = ''audio'' \<or> (\<exists>a b. t = a @ ''mp3'' @ b)"
  by (simp add: getDownloadType_def js_includes_iff)

lemma getDownloadType_cases: "getDownloadType t = ''audio'' \<or> getDownloadType t = ''video''"
  by (simp add: getDownloadType_def)

text \<open>
  C1 (the claim as stated fails). The server returns one plain format whose identifier
  \<^verbatim>\<open>mp3-128k\<close> contains the audio hint \<^verbatim>\<open>mp3\<close> and whose type is \<^verbatim>\<open>video\<close>. With that format
  selected, \<^verbatim>\<open>startDownload\<close> requests the kind \<^verbatim>\<open>video\<close>: the identifier is sent as
  \<^verbatim>\<open>format_id\<close>, and it is never searched for the hint.
\<close>

theorem download_kind_by_identifier_counterexample:
  "list_all plain_format mp3_named_formats \<and>
   js_includes (format_id (mp3_named_formats ! 0)) ''mp3'' \<and>
   requests
     (run [Formats_settled (Response True (example_info\<lparr>formats := Some mp3_named_formats\<rparr>)),
           Click_format 0, Click_download]
        (fresh_page\<lparr>videoUrl := ''https://example.com/v''\<rparr>)) =
     [POST ''/download'' (Download_body ''https://example.com/v'' ''mp3-128k'' ''video'')]"
  by (simp add: mp3_named_formats_def plain_format_def html_plain_def html_meta_def
      example_info_def fresh_page_def run_def fetchFormats_settled_def displayFormats_some
      displayVideoInfo_def click_format_eq select_only_def createFormatElement_def
      startDownload_def getDownloadType_def trim_def js_whitespace_def Let_def)

text \<open>
  C1 (amended). When the server has returned the plain formats \<open>fs\<close> and row \<open>i\<close> has
  been clicked, \<^verbatim>\<open>startDownload\<close> issues one request to \<^verbatim>\<open>/download\<close>; it carries the trimmed
  URL, the id of format \<open>i\<close> and the kind that \<^verbatim>\<open>getDownloadType\<close> derives from the type
  tag of format \<open>i\<close>, the string read back from the \<^verbatim>\<open>data-type\<close> attribute of its radio.
  The kind is \<^verbatim>\<open>audio\<close> exactly when the type tag is \<^verbatim>\<open>audio\<close> or contains \<^verbatim>\<open>mp3\<close>; otherwise
  it is \<^verbatim>\<open>video\<close>, in particular for the types \<^verbatim>\<open>video\<close> and \<^verbatim>\<open>video+audio\<close>. The identifier
  of the format plays no part in the kind.
\<close>

theorem startDownload_kind:
  assumes "formats data = Some fs" and "list_all plain_format fs" and "i < length fs"
  shows "let f = fs ! i;
             s' = run [Formats_settled (Response True data), Click_format i, Click_download] s
         in requests s' =
              requests s @ [POST ''/download''
                (Download_body (trim (videoUrl s)) (format_id f) (getDownloadType (type f)))] \<and>
            (getDownloadType (type f) = ''audio'' \<longleftrightarrow>
               type f = ''audio'' \<or> (\<exists>a b. type f = a @ ''mp3'' @ b)) \<and>
            (getDownloadType (type f) \<noteq> ''audio'' \<longrightarrow> getDownloadType (type f) = ''video'') \<and>
            (type f = ''video'' \<or> type f = ''video+audio'' \<longrightarrow> getDownloadType (type f) = ''video'')"
proof -
  let ?s1 = "fetchFormats_settled (Response True data) s"
  let ?s2 = "click_format i ?s1"
  from assms(3) have ne: "fs \<noteq> []" by auto
  have rows1: "formatsList_rows ?s1 = select_only 0 (map createFormatElement fs)"
    and req1: "requests ?s1 = requests s" and url1: "videoUrl ?s1 = videoUrl s"
    using assms(1) ne
    by (simp_all add: fetchFormats_settled_def displayFormats_some displayVideoInfo_def Let_def
        split: option.splits)
  have s2: "?s2 = ?s1\<lparr>formatsList_rows := select_only i (map createFormatElement fs)\<rparr>"
    using assms(3) by (simp add: click_format_eq rows1)
  have "find radio_checked (formatsList_rows ?s2) =
          Some ((map createFormatElement fs ! i)\<lparr>row_selected := True, radio_checked := True\<rparr>)"
    using assms(3) by (simp add: s2 find_select_only)
  from startDownload_request[OF this]
  have "requests (startDownload ?s2) =
          requests s @ [POST ''/download''
            (Download_body (trim (videoUrl s)) (format_id (fs ! i)) (getDownloadType (type (fs ! i))))]"
    using assms(3) by (simp add: s2 req1 url1 createFormatElement_def)
  moreover have "getDownloadType ''video'' = ''video''" "getDownloadType ''video+audio'' = ''video''"
    by (simp_all add: getDownloadType_def)
  ultimately show ?thesis
    using getDownloadType_audio_iff[of "type (fs ! i)"] getDownloadType_cases[of "type (fs ! i)"]
    by (auto simp: run_def Let_def)
qed

theorem startDownload_kind_witness:
  "list_all plain_format example_formats \<and>
   requests (run [Formats_settled (Response True example_info), Click_format 1, Click_download]
              (fresh_page\<lparr>videoUrl := '' https://example.com/v''\<rparr>)) =
     [POST ''/download'' (Download_body ''https://example.com/v'' ''140'' ''audio'')] \<and>
   getDownloadType ''audio'' = ''audio'' \<and> getDownloadType ''video+audio'' = ''video''"
proof -
  have f: "formats example_info = Some example_formats" by (simp add: example_info_def)
  have p: "list_all plain_format example_formats"
    by (simp add: example_formats_def plain_format_def html_plain_def html_meta_def)
  have i: "(1::nat) < length example_formats" by (simp add: example_formats_def)
  show ?thesis
    using p startDownload_kind[OF f p i, of "fresh_page\<lparr>videoUrl := '' https://example.com/v''\<rparr>"]
    by (simp add: Let_def example_formats_def fresh_page_def trim_def js_whitespace_def
        getDownloadType_def)
qed

section \<open>The timer invariant\<close>

lemma page_loaded_timers_ok: "page_loaded s \<Longrightarrow> timers_ok s"
  by (simp add: page_loaded_def timers_ok_def)

lemma startProgressTracking_timers:
  assumes "timers_ok s"
  shows "timers (startProgressTracking s) = {next_timer s}"
    and "progressInterval (startProgressTracking s) = Some (next_timer s)"
    and "next_timer (startProgressTracking s) = Suc (next_timer s)"
    and "next_timer s \<notin> timers s"
  using assms
  by (auto simp: timers_ok_def startProgressTracking_def clearInterval_def Let_def)

lemma startProgressTracking_ok: "timers_ok s \<Longrightarrow> timers_ok (startProgressTracking s)"
  using startProgressTracking_timers[of s]
  by (simp add: timers_ok_def)

lemma timers_ok_fields:
  assumes "timers s' \<subseteq> timers s" "next_timer s' = next_timer s"
    "progressInterval s' = progressInterval s" "timers_ok s"
  shows "timers_ok s'"
  using assms by (auto simp: timers_ok_def)

lemma fetchFormats_tracking:
  "currentDownloadId (fetchFormats s) = currentDownloadId s"
  "progressInterval (fetchFormats s) = progressInterval s"
  "timers (fetchFormats s) = timers s"
  "next_timer (fetchFormats s) = next_timer s"
  by (simp_all add: fetchFormats_def Let_def showError_def resetUI_def)

lemma displayFormats_tracking:
  "currentDownloadId (displayFormats fs s) = currentDownloadId s"
  "progressInterval (displayFormats fs s) = progressInterval s"
  "timers (displayFormats fs s) = timers s"
  "next_timer (displayFormats fs s) = next_timer s"
  "requests (displayFormats fs s) = requests s"
proof -
  consider "fs = None \<or> fs = Some []" | l where "fs = Some l" "l \<noteq> []"
    by (cases fs) auto
  then have "currentDownloadId (displayFormats fs s) = currentDownloadId s \<and>
    progressInterval (displayFormats fs s) = progressInterval s \<and>
    timers (displayFormats fs s) = timers s \<and>
    next_timer (displayFormats fs s) = next_timer s \<and>
    requests (displayFormats fs s) = requests s"
  proof cases
    case 1
    then show ?thesis by (simp add: displayFormats_empty)
  next
    case 2
    then show ?thesis by (simp add: displayFormats_some)
  qed
  then show "currentDownloadId (displayFormats fs s) = currentDownloadId s"
    "progressInterval (displayFormats fs s) = progressInterval s"
    "timers (displayFormats fs s) = timers s"
    "next_timer (displayFormats fs s) = next_timer s"
    "requests (displayFormats fs s) = requests s"
    by simp_all
qed

lemma fetchFormats_settled_tracking:
  "currentDownloadId (fetchFormats_settled r s) = currentDownloadId s"
  "progressInterval (fetchFormats_settled r s) = progressInterval s"
  "timers (fetchFormats_settled r s) = timers s"
  "next_timer (fetchFormats_settled r s) = next_timer s"
  "requests (fetchFormats_settled r s) = requests s"
  by (simp_all add: fetchFormats_settled_def Let_def showError_def displayFormats_tracking
      displayVideoInfo_def split: settled.splits option.splits)

lemma click_format_tracking:
  "currentDownloadId (click_format i s) = currentDownloadId s"
  "progressInterval (click_format i s) = progressInterval s"
  "timers (click_format i s) = timers s"
  "next_timer (click_format i s) = next_timer s"
  "requests (click_format i s) = requests s"
  by (simp_all add: click_format_def Let_def)

lemma startDownload_tracking:
  "currentDownloadId (startDownload s) = currentDownloadId s"
  "progressInterval (startDownload s) = progressInterval s"
  "timers (startDownload s) = timers s"
  "next_timer (startDownload s) = next_timer s"
  by (simp_all add: startDownload_def Let_def showError_def split: option.splits)

lemma progress_tick_tracking:
  "currentDownloadId (progress_tick s) = currentDownloadId s"
  "progressInterval (progress_tick s) = progressInterval s"
  "timers (progress_tick s) = timers s"
  "next_timer (progress_tick s) = next_timer s"
  by (simp_all add: progress_tick_def)

lemma progress_settled_tracking:
  "currentDownloadId (progress_settled r s) = currentDownloadId s"
  "progressInterval (progress_settled r s) = progressInterval s"
  "timers (progress_settled r s) \<subseteq> timers s"
  "next_timer (progress_settled r s) = next_timer s"
  "requests (progress_settled r s) = requests s"
  by (auto simp: progress_settled_def Let_def updateProgressUI_def showDownloadComplete_def
      showProgressError_def clearInterval_def split: settled.splits option.splits)

lemma step_timers_ok: "timers_ok s \<Longrightarrow> timers_ok (step e s)"
proof (cases e)
  case (Download_settled r)
  assume ok: "timers_ok s"
  show ?thesis
  proof (cases r)
    case (Rejected m)
    with Download_settled ok show ?thesis
      by (auto simp: startDownload_settled_def showProgressError_def timers_ok_def)
  next
    case (Response b data)
    show ?thesis
    proof (cases b)
      case True
      have "timers_ok (s\<lparr>currentDownloadId := download_id data\<rparr>)"
        using ok by (simp add: timers_ok_def)
      then show ?thesis
        using Download_settled Response True
        by (simp add: startDownload_settled_def startProgressTracking_ok)
    next
      case False
      with Download_settled Response ok show ?thesis
        by (auto simp: startDownload_settled_def showProgressError_def timers_ok_def)
    qed
  qed
next
  case (Progress_settled r)
  assume "timers_ok s"
  then show ?thesis
    using Progress_settled progress_settled_tracking[of r s]
    by (auto intro: timers_ok_fields)
qed (auto simp: timers_ok_def fetchFormats_tracking fetchFormats_settled_tracking
      click_format_tracking startDownload_tracking progress_tick_tracking downloadFile_def
      resetDownload_def)

lemma run_Cons: "run (e # evs) s = run evs (step e s)"
  by (simp add: run_def)

lemma run_Nil: "run [] s = s"
  by (simp add: run_def)

lemma run_append: "run (evs @ evs') s = run evs' (run evs s)"
  by (simp add: run_def)

lemma run_timers_ok: "timers_ok s \<Longrightarrow> timers_ok (run evs s)"
  by (induction evs arbitrary: s) (simp_all add: run_Nil run_Cons step_timers_ok)

lemma timers_ok_card: "timers_ok s \<Longrightarrow> card (timers s) \<le> 1"
proof -
  assume ok: "timers_ok s"
  show ?thesis
  proof (cases "progressInterval s")
    case None
    with ok have "timers s = {}" by (auto simp: timers_ok_def)
    then show ?thesis by simp
  next
    case (Some h)
    with ok have "timers s \<subseteq> {h}" by (auto simp: timers_ok_def)
    then have "card (timers s) \<le> card {h}" by (intro card_mono) simp_all
    then show ?thesis by simp
  qed
qed

section \<open>Which progress requests are issued\<close>

lemma polled_append: "polled (a @ b) = polled a @ polled b"
  by (simp add: polled_def map_filter_def)

lemma polled_Nil: "polled [] = []"
  by (simp add: polled_def map_filter_def)

lemma polled_progress: "polled [GET (''/progress/'' @ d)] = [d]"
  by (simp add: polled_def map_filter_def)

lemma polled_POST: "polled [POST path body] = []"
  by (simp add: polled_def map_filter_def)

lemma issued_since_same: "requests s' = requests s \<Longrightarrow> issued_since s s' = []"
  by (simp add: issued_since_def)

lemma issued_since_append: "requests s' = requests s @ new \<Longrightarrow> issued_since s s' = new"
  by (simp add: issued_since_def)

lemma progress_tick_requests:
  "requests (progress_tick s) =
     requests s @ (case currentDownloadId s of
                     None \<Rightarrow> []
                   | Some d \<Rightarrow> if d = [] then [] else [GET (''/progress/'' @ d)])"
  by (simp add: progress_tick_def truthy_def template_def split: option.splits)

lemma progress_tick_issued:
  "\<exists>new. requests (progress_tick s) = requests s @ new \<and>
         set (polled new) \<subseteq> set_option (currentDownloadId s)"
proof (cases "currentDownloadId s")
  case None
  then show ?thesis by (simp add: progress_tick_requests polled_Nil)
next
  case (Some d)
  have "requests (progress_tick s) =
          requests s @ (if d = [] then [] else [GET (''/progress/'' @ d)])"
    using Some by (simp only: progress_tick_requests option.case)
  moreover have "set (polled (if d = [] then [] else [GET (''/progress/'' @ d)])) \<subseteq> {d}"
    using polled_progress[of d] by (simp add: polled_Nil del: append.simps)
  ultimately show ?thesis using Some by auto
qed

lemma startProgressTracking_tracked:
  "currentDownloadId (startProgressTracking s) = currentDownloadId s"
  "requests (startProgressTracking s) = requests s"
  by (simp_all add: startProgressTracking_def clearInterval_def Let_def split: option.splits)

lemma fetchFormats_requests:
  "requests (fetchFormats s) =
     requests s @ (if trim (videoUrl s) = [] then []
                   else [POST ''/fetch_formats'' (Fetch_body (trim (videoUrl s)))])"
  by (simp add: fetchFormats_def Let_def showError_def resetUI_def)

lemma startDownload_requests:
  "\<exists>new. requests (startDownload s) = requests s @ new \<and> polled new = []"
  by (cases "find radio_checked (formatsList_rows s)")
     (simp_all add: startDownload_def Let_def showError_def polled_Nil polled_POST)


lemma startDownload_settled_requests: "requests (startDownload_settled r s) = requests s"
  by (simp add: startDownload_settled_def showProgressError_def startProgressTracking_tracked
      split: settled.splits)

lemma step_issued:
  "\<exists>new. requests (step e s) = requests s @ new \<and>
         set (polled new) \<subseteq> set_option (currentDownloadId s) \<and>
         (timers s = {} \<longrightarrow> polled new = [])"
proof (cases e)
  case Submit_url
  then show ?thesis
    by (simp add: fetchFormats_requests polled_Nil polled_POST)
next
  case Click_download
  with startDownload_requests[of s] show ?thesis by auto
next
  case (Timer_fires h)
  show ?thesis
  proof (cases "h \<in> timers s")
    case True
    with Timer_fires progress_tick_issued[of s] show ?thesis by auto
  next
    case False
    with Timer_fires show ?thesis by (simp add: polled_Nil)
  qed
qed (simp_all add: fetchFormats_settled_tracking click_format_tracking
      startDownload_settled_requests progress_settled_tracking downloadFile_def
      resetDownload_def polled_Nil)

lemma step_tracked:
  "set_option (currentDownloadId (step e s)) \<subseteq> set_option (currentDownloadId s) \<union> set (started e)"
proof (cases e)
  case (Download_settled r)
  show ?thesis
  proof (cases r)
    case (Rejected m)
    with Download_settled show ?thesis
      by (simp add: startDownload_settled_def showProgressError_def)
  next
    case (Response b data)
    with Download_settled show ?thesis
      by (cases b; cases "download_id data")
         (simp_all add: startDownload_settled_def showProgressError_def
           startProgressTracking_tracked)
  qed
qed (simp_all add: fetchFormats_tracking fetchFormats_settled_tracking click_format_tracking
      startDownload_tracking progress_tick_tracking progress_settled_tracking downloadFile_def
      resetDownload_def)

lemma step_no_start_timers:
  assumes "\<not> is_download_start e" and "timers s = {}"
  shows "timers (step e s) = {}"
proof (cases e)
  case (Download_settled r)
  with assms show ?thesis
    by (cases r) (auto simp: startDownload_settled_def showProgressError_def)
next
  case (Progress_settled r)
  with assms progress_settled_tracking(3)[of r s] show ?thesis by simp
qed (use assms in \<open>simp_all add: fetchFormats_tracking fetchFormats_settled_tracking
      click_format_tracking startDownload_tracking progress_tick_tracking downloadFile_def
      resetDownload_def\<close>)

lemma run_issued:
  "\<exists>new. requests (run evs s) = requests s @ new \<and>
         set (polled new) \<subseteq> set_option (currentDownloadId s) \<union> set (concat (map started evs))"
proof (induction evs arbitrary: s)
  case Nil
  then show ?case by (simp add: run_Nil polled_Nil)
next
  case (Cons e evs)
  obtain n1 where n1: "requests (step e s) = requests s @ n1"
    "set (polled n1) \<subseteq> set_option (currentDownloadId s)"
    using step_issued[of e s] by blast
  obtain n2 where n2: "requests (run evs (step e s)) = requests (step e s) @ n2"
    "set (polled n2) \<subseteq> set_option (currentDownloadId (step e s)) \<union> set (concat (map started evs))"
    using Cons.IH[of "step e s"] by blast
  have "requests (run (e # evs) s) = requests s @ (n1 @ n2)"
    by (simp add: run_Cons n1 n2)
  moreover have "set (polled (n1 @ n2)) \<subseteq>
      set_option (currentDownloadId s) \<union> set (concat (map started (e # evs)))"
    using n1(2) n2(2) step_tracked[of e s] by (auto simp: polled_append)
  ultimately show ?case by blast
qed

lemma run_no_polls:
  assumes "timers s = {}" and "\<forall>e\<in>set evs. \<not> is_download_start e"
  shows "polled (issued_since s (run evs s)) = [] \<and> timers (run evs s) = {}"
  using assms
proof (induction evs arbitrary: s)
  case Nil
  then show ?case by (simp add: run_Nil issued_since_def polled_Nil)
next
  case (Cons e evs)
  obtain n1 where n1: "requests (step e s) = requests s @ n1" "polled n1 = []"
    using step_issued[of e s] Cons.prems(1) by blast
  have t1: "timers (step e s) = {}"
    using Cons.prems by (simp add: step_no_start_timers)
  with Cons have ih: "polled (issued_since (step e s) (run evs (step e s))) = []"
    "timers (run evs (step e s)) = {}"
    by simp_all
  obtain n2 where n2: "requests (run evs (step e s)) = requests (step e s) @ n2"
    using run_issued[of evs "step e s"] by blast
  with ih have "polled n2 = []" by (simp add: issued_since_def)
  with n1 n2 ih(2) show ?case
    by (simp add: run_Cons issued_since_def polled_append)
qed

lemma no_start_started: "\<not> is_download_start e \<Longrightarrow> started e = []"
  by (cases e rule: is_download_start.cases) simp_all

text \<open>
  C3. At most one polling timer is installed in any state the page reaches. When a
  download request succeeds in such a state (a second download, started while the
  first is polled), \<^verbatim>\<open>startProgressTracking\<close> leaves exactly one timer installed, a new
  one: the timer installed before is cleared. Every progress request issued from
  then on is for the download id of that response or for the id of a download
  started later; when no later download starts, only the second download's progress
  endpoint is polled.
\<close>

theorem one_polling_loop:
  assumes "page_loaded s0"
  shows "let s = run evs s0;
             s2 = step (Download_settled (Response True data)) s;
             later = polled (issued_since s2 (run evs' s2))
         in card (timers s) \<le> 1 \<and>
            timers s2 = {next_timer s} \<and>
            progressInterval s2 = Some (next_timer s) \<and>
            next_timer s \<notin> timers s \<and>
            currentDownloadId s2 = download_id data \<and>
            set later \<subseteq> set_option (download_id data) \<union> set (concat (map started evs')) \<and>
            ((\<forall>e\<in>set evs'. \<not> is_download_start e) \<longrightarrow> set later \<subseteq> set_option (download_id data))"
proof -
  let ?s = "run evs s0"
  let ?t = "?s\<lparr>currentDownloadId := download_id data\<rparr>"
  let ?s2 = "startProgressTracking ?t"
  have ok: "timers_ok ?s"
    using assms by (simp add: page_loaded_timers_ok run_timers_ok)
  then have okt: "timers_ok ?t" by (simp add: timers_ok_def)
  have s2: "step (Download_settled (Response True data)) ?s = ?s2"
    by (simp add: startDownload_settled_def)
  have cur: "currentDownloadId ?s2 = download_id data"
    by (simp add: startProgressTracking_tracked)
  obtain new where new: "requests (run evs' ?s2) = requests ?s2 @ new"
    "set (polled new) \<subseteq> set_option (currentDownloadId ?s2) \<union> set (concat (map started evs'))"
    using run_issued[of evs' ?s2] by blast
  then have later: "issued_since ?s2 (run evs' ?s2) = new"
    by (simp add: issued_since_def)
  have sub: "set (polled new) \<subseteq> set_option (download_id data) \<union> set (concat (map started evs'))"
    using new(2) cur by simp
  have quiet: "(\<forall>e\<in>set evs'. \<not> is_download_start e) \<longrightarrow> concat (map started evs') = []"
    by (simp add: no_start_started)
  have "card (timers ?s) \<le> 1" using ok by (rule timers_ok_card)
  moreover have "timers ?s2 = {next_timer ?s}" "progressInterval ?s2 = Some (next_timer ?s)"
    "next_timer ?s \<notin> timers ?s"
    using startProgressTracking_timers[OF okt] by simp_all
  ultimately show ?thesis
    using sub quiet cur unfolding Let_def s2 later by auto
qed

theorem one_polling_loop_witness:
  "card (timers polling_page) \<le> 1 \<and>
   timers (step (Download_settled (Response True \<lparr>download_error = None, download_id = Some ''def456''\<rparr>))
            polling_page) = {2} \<and>
   set (polled (issued_since
      (step (Download_settled (Response True \<lparr>download_error = None, download_id = Some ''def456''\<rparr>))
         polling_page)
      (run [Timer_fires 1, Timer_fires 2, Reset_download, Timer_fires 2]
         (step (Download_settled (Response True \<lparr>download_error = None, download_id = Some ''def456''\<rparr>))
            polling_page)))) \<subseteq> {''def456''}"
proof -
  have p: "page_loaded fresh_page" by (simp add: page_loaded_def fresh_page_def)
  have n: "next_timer polling_page = 2"
    by (simp add: polling_page_def run_def fresh_page_def example_info_def example_formats_def
        example_started_def fetchFormats_def fetchFormats_settled_def displayFormats_some
        displayVideoInfo_def startDownload_def startDownload_settled_def startProgressTracking_def
        resetUI_def showError_def trim_def js_whitespace_def Let_def select_only_def
        createFormatElement_def)
  show ?thesis
    using one_polling_loop[OF p,
        of "[Type_url ''https://example.com/v'', Submit_url,
             Formats_settled (Response True example_info), Click_download,
             Download_settled (Response True example_started)]"
           "\<lparr>download_error = None, download_id = Some ''def456''\<rparr>"
           "[Timer_fires 1, Timer_fires 2, Reset_download, Timer_fires 2]"]
    unfolding polling_page_def[symmetric] Let_def n by simp
qed

section \<open>Terminal progress reports\<close>

lemma progress_settled_clears:
  assumes "timers_ok s" and "status p = Some ''completed'' \<or> status p = Some ''error''"
  shows "timers (progress_settled (Response ok p) s) = {}"
proof (cases "progressInterval s")
  case None
  with assms(1) have "timers s = {}" by (auto simp: timers_ok_def)
  with progress_settled_tracking(3)[of "Response ok p" s] show ?thesis by simp
next
  case (Some h)
  with assms(1) have "timers s \<subseteq> {h}" by (auto simp: timers_ok_def)
  with Some assms(2) show ?thesis
    by (auto simp: progress_settled_def Let_def updateProgressUI_def
        showDownloadComplete_def showProgressError_def clearInterval_def)
qed

text \<open>
  C4. In any state the page reaches, when a progress request settles with a report
  whose status is \<^verbatim>\<open>completed\<close>: no timer is installed afterwards, so no timer fires and
  no progress request is issued until another download starts; the completion view is
  shown in place of the progress content (the \<^verbatim>\<open>d-none\<close> class leaves the one and joins
  the other; the card around them is left as it is); it shows the filename of the
  report as it was returned; and the download control is enabled.
\<close>

theorem completed_stops_polling:
  assumes "page_loaded s0" and "status p = Some ''completed''"
  shows "let s = run evs s0;
             s' = step (Progress_settled (Response ok p)) s
         in timers s' = {} \<and>
            step (Timer_fires h) s' = s' \<and>
            ((\<forall>e\<in>set evs'. \<not> is_download_start e) \<longrightarrow>
               polled (issued_since s' (run evs' s')) = []) \<and>
            \<not> downloadComplete_hidden s' \<and>
            progressContent_hidden s' \<and>
            completedFilename s' = textContent (filename p) \<and>
            (filename p = Some f \<longrightarrow> completedFilename s' = f) \<and>
            \<not> downloadBtn_disabled s'"
proof -
  let ?s = "run evs s0"
  let ?s' = "progress_settled (Response ok p) ?s"
  have ok: "timers_ok ?s"
    using assms(1) by (simp add: page_loaded_timers_ok run_timers_ok)
  have t: "timers ?s' = {}"
    using ok assms(2) by (simp add: progress_settled_clears)
  then have tick: "step (Timer_fires h) ?s' = ?s'" by simp
  have quiet: "(\<forall>e\<in>set evs'. \<not> is_download_start e) \<longrightarrow>
      polled (issued_since ?s' (run evs' ?s')) = []"
    using run_no_polls[OF t, of evs'] by blast
  have view: "\<not> downloadComplete_hidden ?s'" "progressContent_hidden ?s'"
    "completedFilename ?s' = textContent (filename p)" "\<not> downloadBtn_disabled ?s'"
    using assms(2)
    by (simp_all add: progress_settled_def Let_def showDownloadComplete_def clearInterval_def
        updateProgressUI_def split: option.splits)
  have "filename p = Some f \<longrightarrow> completedFilename ?s' = f"
    using view(3) by (simp add: textContent_def)
  with t tick quiet view show ?thesis
    unfolding Let_def step.simps by blast
qed

theorem completed_stops_polling_witness:
  "timers (step (Progress_settled (Response True (example_progress ''completed''))) polling_page) = {} \<and>
   completedFilename (step (Progress_settled (Response True (example_progress ''completed''))) polling_page)
     = ''v.mp4'' \<and>
   polled (issued_since
     (step (Progress_settled (Response True (example_progress ''completed''))) polling_page)
     (run [Timer_fires 1, Reset_download, Timer_fires 1]
        (step (Progress_settled (Response True (example_progress ''completed''))) polling_page))) = []"
proof -
  have p: "page_loaded fresh_page" by (simp add: page_loaded_def fresh_page_def)
  have c: "status (example_progress ''completed'') = Some ''completed''"
    by (simp add: example_progress_def)
  have f: "filename (example_progress ''completed'') = Some ''v.mp4''"
    by (simp add: example_progress_def)
  show ?thesis
    using completed_stops_polling[OF p c,
        of "[Type_url ''https://example.com/v'', Submit_url,
             Formats_settled (Response True example_info), Click_download,
             Download_settled (Response True example_started)]"
           True 1 "[Timer_fires 1, Reset_download, Timer_fires 1]" "''v.mp4''"]
    unfolding polling_page_def[symmetric] Let_def by (simp add: f textContent_def)
qed

text \<open>
  C5. In any state the page reaches, when a progress request settles with a report
  whose status is \<^verbatim>\<open>error\<close>: no timer is installed afterwards, so no timer fires and no
  progress request is issued until another download starts; the error view is shown in
  place of the progress content (the \<^verbatim>\<open>d-none\<close> class leaves the one and joins the
  other; the card around them is left as it is); it shows the message of the report
  as it was returned; and the download control is enabled.
\<close>

theorem error_stops_polling:
  assumes "page_loaded s0" and "status p = Some ''error''"
  shows "let s = run evs s0;
             s' = step (Progress_settled (Response ok p)) s
         in timers s' = {} \<and>
            step (Timer_fires h) s' = s' \<and>
            ((\<forall>e\<in>set evs'. \<not> is_download_start e) \<longrightarrow>
               polled (issued_since s' (run evs' s')) = []) \<and>
            \<not> downloadError_hidden s' \<and>
            progressContent_hidden s' \<and>
            errorMessage s' = textContent (message p) \<and>
            (message p = Some m \<longrightarrow> errorMessage s' = m) \<and>
            \<not> downloadBtn_disabled s'"
proof -
  let ?s = "run evs s0"
  let ?s' = "progress_settled (Response ok p) ?s"
  have ok: "timers_ok ?s"
    using assms(1) by (simp add: page_loaded_timers_ok run_timers_ok)
  have t: "timers ?s' = {}"
    using ok assms(2) by (simp add: progress_settled_clears)
  then have tick: "step (Timer_fires h) ?s' = ?s'" by simp
  have quiet: "(\<forall>e\<in>set evs'. \<not> is_download_start e) \<longrightarrow>
      polled (issued_since ?s' (run evs' ?s')) = []"
    using run_no_polls[OF t, of evs'] by blast
  have view: "\<not> downloadError_hidden ?s'" "progressContent_hidden ?s'"
    "errorMessage ?s' = textContent (message p)" "\<not> downloadBtn_disabled ?s'"
    using assms(2)
    by (simp_all add: progress_settled_def Let_def showProgressError_def clearInterval_def
        updateProgressUI_def split: option.splits)
  have "message p = Some m \<longrightarrow> errorMessage ?s' = m"
    using view(3) by (simp add: textContent_def)
  with t tick quiet view show ?thesis
    unfolding Let_def step.simps by blast
qed

theorem error_stops_polling_witness:
  "timers (step (Progress_settled (Response True (example_progress ''error''))) polling_page) = {} \<and>
   errorMessage (step (Progress_settled (Response True (example_progress ''error''))) polling_page)
     = ''done'' \<and>
   polled (issued_since
     (step (Progress_settled (Response True (example_progress ''error''))) polling_page)
     (run [Timer_fires 1, Click_download, Timer_fires 1]
        (step (Progress_settled (Response True (example_progress ''error''))) polling_page))) = []"
proof -
  have p: "page_loaded fresh_page" by (simp add: page_loaded_def fresh_page_def)
  have c: "status (example_progress ''error'') = Some ''error''"
    by (simp add: example_progress_def)
  have f: "message (example_progress ''error'') = Some ''done''"
    by (simp add: example_progress_def)
  show ?thesis
    using error_stops_polling[OF p c,
        of "[Type_url ''https://example.com/v'', Submit_url,
             Formats_settled (Response True example_info), Click_download,
             Download_settled (Response True example_started)]"
           True 1 "[Timer_fires 1, Click_download, Timer_fires 1]" "''done''"]
    unfolding polling_page_def[symmetric] Let_def by (simp add: f textContent_def)
qed

section \<open>Failed ticks and the reset of the download views\<close>

lemma tick_rejected_round:
  assumes "h \<in> timers s" and "currentDownloadId s = Some d" and "d \<noteq> []"
  shows "run [Timer_fires h, Progress_settled (Rejected m)] s =
           s\<lparr>requests := requests s @ [GET (''/progress/'' @ d)],
             console_errors := console_errors s @ [(''Error fetching progress:'', m)]\<rparr>"
  using assms
  by (simp add: run_def progress_tick_def progress_settled_def truthy_def template_def)

lemma failing_rounds:
  assumes "h \<in> timers s" and "currentDownloadId s = Some d" and "d \<noteq> []"
  shows "run (concat (replicate n [Timer_fires h, Progress_settled (Rejected m)])) s =
           s\<lparr>requests := requests s @ replicate n (GET (''/progress/'' @ d)),
             console_errors :=
               console_errors s @ replicate n (''Error fetching progress:'', m)\<rparr>"
  using assms
proof (induction n arbitrary: s)
  case 0
  then show ?case by (simp add: run_Nil)
next
  case (Suc n)
  let ?s1 = "run [Timer_fires h, Progress_settled (Rejected m)] s"
  have s1: "?s1 = s\<lparr>requests := requests s @ [GET (''/progress/'' @ d)],
             console_errors := console_errors s @ [(''Error fetching progress:'', m)]\<rparr>"
    using Suc.prems by (rule tick_rejected_round)
  have "run (concat (replicate (Suc n) [Timer_fires h, Progress_settled (Rejected m)])) s =
          run (concat (replicate n [Timer_fires h, Progress_settled (Rejected m)])) ?s1"
    by (simp add: run_def)
  also have "\<dots> = ?s1\<lparr>requests := requests ?s1 @ replicate n (GET (''/progress/'' @ d)),
             console_errors :=
               console_errors ?s1 @ replicate n (''Error fetching progress:'', m)\<rparr>"
    using Suc.prems by (intro Suc.IH) (simp_all add: s1)
  also have "\<dots> = s\<lparr>requests := requests s @ replicate (Suc n) (GET (''/progress/'' @ d)),
             console_errors :=
               console_errors s @ replicate (Suc n) (''Error fetching progress:'', m)\<rparr>"
    by (simp add: s1 replicate_app_Cons_same del: append.simps)
  finally show ?case .
qed

text \<open>
  C6. When a progress request is rejected (a network failure, or a body that does not
  parse), the callback logs the error to the console and changes nothing else: no
  alert, no error view, and the timers installed, the timer handle and the tracked id
  are as before. The next time the timer fires, a progress request for the tracked id
  is issued again; and however many ticks fail in a row, each one issues its request
  and the timer is still installed after the last.
\<close>

theorem poll_failure_swallowed:
  "let s' = step (Progress_settled (Rejected m)) s;
       s'' = run (concat (replicate n [Timer_fires h, Progress_settled (Rejected m)])) s
   in s' = s\<lparr>console_errors := console_errors s @ [(''Error fetching progress:'', m)]\<rparr> \<and>
      timers s' = timers s \<and>
      progressInterval s' = progressInterval s \<and>
      currentDownloadId s' = currentDownloadId s \<and>
      alerts s' = alerts s \<and>
      downloadError_hidden s' = downloadError_hidden s \<and>
      (h \<in> timers s \<and> currentDownloadId s = Some d \<and> d \<noteq> [] \<longrightarrow>
         requests (step (Timer_fires h) s') = requests s @ [GET (''/progress/'' @ d)] \<and>
         requests s'' = requests s @ replicate n (GET (''/progress/'' @ d)) \<and>
         h \<in> timers s'')"
proof -
  let ?s' = "progress_settled (Rejected m) s"
  have s': "?s' = s\<lparr>console_errors := console_errors s @ [(''Error fetching progress:'', m)]\<rparr>"
    by (simp add: progress_settled_def)
  have later: "requests (step (Timer_fires h) ?s') = requests s @ [GET (''/progress/'' @ d)] \<and>
      requests (run (concat (replicate n [Timer_fires h, Progress_settled (Rejected m)])) s) =
        requests s @ replicate n (GET (''/progress/'' @ d)) \<and>
      h \<in> timers (run (concat (replicate n [Timer_fires h, Progress_settled (Rejected m)])) s)"
    if a: "h \<in> timers s" "currentDownloadId s = Some d" "d \<noteq> []"
  proof -
    have "requests (step (Timer_fires h) ?s') = requests s @ [GET (''/progress/'' @ d)]"
      using a by (simp add: s' progress_tick_def truthy_def template_def)
    then show ?thesis
      unfolding failing_rounds[OF a, of n m] using a(1) by simp
  qed
  show ?thesis
    unfolding Let_def step.simps(8)
    using later by (simp add: s')
qed

theorem poll_failure_swallowed_witness:
  "requests (run [Progress_settled (Rejected ''Failed to fetch''), Timer_fires 1] polling_page) =
     requests polling_page @ [GET ''/progress/abc123''] \<and>
   timers (step (Progress_settled (Rejected ''Failed to fetch'')) polling_page) = {1}"
proof -
  have pp: "timers polling_page = {1}" "currentDownloadId polling_page = Some ''abc123''"
    by (simp_all add: polling_page_def run_def fresh_page_def example_info_def example_formats_def
        example_started_def fetchFormats_def fetchFormats_settled_def displayFormats_some
        displayVideoInfo_def startDownload_def startDownload_settled_def startProgressTracking_def
        resetUI_def showError_def trim_def js_whitespace_def Let_def select_only_def
        createFormatElement_def)
  have h: "1 \<in> timers polling_page" by (simp add: pp)
  have d: "''abc123'' \<noteq> []" by simp
  show ?thesis
    using poll_failure_swallowed[of "''Failed to fetch''" polling_page 0 1 "''abc123''"] h d
    by (simp add: Let_def run_def pp progress_settled_def progress_tick_def truthy_def
        template_def)
qed

text \<open>
  C10. \<^verbatim>\<open>resetDownload\<close> hides the progress card and the error view and enables the
  download control; every other part of the page state is as before, among them the
  tracked download id, the timer handle and the timers installed. So a timer that is
  installed when it runs still fires afterwards, and every tick issues a progress
  request for the same download id.
\<close>

theorem resetDownload_keeps_polling:
  "let s' = step Reset_download s
   in progressCard_hidden s' \<and> downloadError_hidden s' \<and> \<not> downloadBtn_disabled s' \<and>
      s'\<lparr>progressCard_hidden := progressCard_hidden s,
         downloadError_hidden := downloadError_hidden s,
         downloadBtn_disabled := downloadBtn_disabled s\<rparr> = s \<and>
      currentDownloadId s' = currentDownloadId s \<and>
      progressInterval s' = progressInterval s \<and>
      timers s' = timers s \<and>
      requests s' = requests s \<and>
      (h \<in> timers s \<and> currentDownloadId s = Some d \<and> d \<noteq> [] \<longrightarrow>
         requests (run (replicate n (Timer_fires h)) s') =
           requests s @ replicate n (GET (''/progress/'' @ d)) \<and>
         h \<in> timers (run (replicate n (Timer_fires h)) s'))"
proof -
  let ?s' = "resetDownload s"
  have ticks: "requests (run (replicate n (Timer_fires h)) t) =
      requests t @ replicate n (GET (''/progress/'' @ d)) \<and>
      timers (run (replicate n (Timer_fires h)) t) = timers t \<and>
      currentDownloadId (run (replicate n (Timer_fires h)) t) = currentDownloadId t"
    if "h \<in> timers t" "currentDownloadId t = Some d" "d \<noteq> []" for t
    using that
  proof (induction n arbitrary: t)
    case 0
    then show ?case by (simp add: run_Nil)
  next
    case (Suc n)
    let ?t1 = "t\<lparr>requests := requests t @ [GET (''/progress/'' @ d)]\<rparr>"
    have t1: "step (Timer_fires h) t = ?t1"
      using Suc.prems by (simp add: progress_tick_def truthy_def template_def)
    have "h \<in> timers ?t1" "currentDownloadId ?t1 = Some d"
      using Suc.prems by simp_all
    from Suc.IH[OF this Suc.prems(3)] show ?case
      unfolding replicate.simps run_Cons t1
      by (simp add: replicate_app_Cons_same del: append.simps)
  qed
  have later: "requests (run (replicate n (Timer_fires h)) ?s') =
        requests s @ replicate n (GET (''/progress/'' @ d)) \<and>
      h \<in> timers (run (replicate n (Timer_fires h)) ?s')"
    if a: "h \<in> timers s" "currentDownloadId s = Some d" "d \<noteq> []"
  proof -
    have "h \<in> timers ?s'" "currentDownloadId ?s' = Some d"
      using a by (simp_all add: resetDownload_def)
    from ticks[OF this a(3)] a(1) show ?thesis
      by (simp add: resetDownload_def)
  qed
  show ?thesis
    unfolding Let_def step.simps(10)
    using later by (simp add: resetDownload_def)
qed

theorem resetDownload_keeps_polling_witness:
  "requests (run [Reset_download, Timer_fires 1, Timer_fires 1] polling_page) =
     requests polling_page @ [GET ''/progress/abc123'', GET ''/progress/abc123''] \<and>
   currentDownloadId (step Reset_download polling_page) = Some ''abc123'' \<and>
   timers (step Reset_download polling_page) = {1} \<and>
   \<not> downloadBtn_disabled (step Reset_download polling_page)"
proof -
  have pp: "timers polling_page = {1}" "currentDownloadId polling_page = Some ''abc123''"
    by (simp_all add: polling_page_def run_def fresh_page_def example_info_def example_formats_def
        example_started_def fetchFormats_def fetchFormats_settled_def displayFormats_some
        displayVideoInfo_def startDownload_def startDownload_settled_def startProgressTracking_def
        resetUI_def showError_def trim_def js_whitespace_def Let_def select_only_def
        createFormatElement_def)
  have h: "1 \<in> timers polling_page" by (simp add: pp)
  have d: "''abc123'' \<noteq> []" by simp
  have two: "replicate 2 (Timer_fires 1) = [Timer_fires 1, Timer_fires 1]"
    by (simp add: numeral_2_eq_2)
  show ?thesis
    using resetDownload_keeps_polling[of polling_page 1 "''abc123''" 2] h d
    by (simp add: Let_def run_def pp two resetDownload_def progress_tick_def truthy_def
        template_def)
qed

section \<open>Fetching formats and local validation\<close>

lemma polling_page_tracking:
  "timers polling_page = {1}"
  "currentDownloadId polling_page = Some ''abc123''"
  "progressInterval polling_page = Some 1"
  "trim (videoUrl polling_page) = ''https://example.com/v''"
  by (simp_all add: polling_page_def run_def fresh_page_def example_info_def example_formats_def
      example_started_def fetchFormats_def fetchFormats_settled_def displayFormats_some
      displayVideoInfo_def startDownload_def startDownload_settled_def startProgressTracking_def
      resetUI_def showError_def trim_def js_whitespace_def Let_def select_only_def
      createFormatElement_def)

lemma trim_empty_iff: "trim u = [] \<longleftrightarrow> (\<forall>c\<in>set u. js_whitespace c)"
proof -
  have "trim u = [] \<longleftrightarrow> (\<forall>c\<in>set (dropWhile js_whitespace u). js_whitespace c)"
    by (simp add: trim_def dropWhile_eq_Nil_conv)
  also have "\<dots> \<longleftrightarrow> dropWhile js_whitespace (dropWhile js_whitespace u) = []"
    by (simp only: dropWhile_eq_Nil_conv)
  also have "\<dots> \<longleftrightarrow> dropWhile js_whitespace u = []"
    by (simp only: dropWhile_idem)
  also have "\<dots> \<longleftrightarrow> (\<forall>c\<in>set u. js_whitespace c)"
    by (simp only: dropWhile_eq_Nil_conv)
  finally show ?thesis .
qed

text \<open>
  C2 (the claim as stated fails). On a page that tracks and polls the download
  \<^verbatim>\<open>abc123\<close>, submitting the URL form begins a fetch (the request is issued), and
  afterwards the same download id is tracked, the same timer is installed, and the
  next tick of that timer requests the progress of \<^verbatim>\<open>abc123\<close>.
\<close>

theorem fetchFormats_forgets_session_counterexample:
  "currentDownloadId polling_page = Some ''abc123'' \<and>
   requests (step Submit_url polling_page) =
     requests polling_page @ [POST ''/fetch_formats'' (Fetch_body ''https://example.com/v'')] \<and>
   currentDownloadId (step Submit_url polling_page) = Some ''abc123'' \<and>
   timers (step Submit_url polling_page) = {1} \<and>
   requests (step (Timer_fires 1) (step Submit_url polling_page)) =
     requests (step Submit_url polling_page) @ [GET ''/progress/abc123'']"
  by (simp add: polling_page_tracking fetchFormats_tracking fetchFormats_requests
      progress_tick_requests)

text \<open>
  C2 (amended). \<^verbatim>\<open>fetchFormats\<close> does not forget a tracked session. With a URL that is
  not blank, beginning the fetch hides the progress card, the completion view and the
  error view; but the tracked download id, the timer handle and the timers installed
  are the same after the fetch begins and after it settles, whatever the response.
  So a timer that is installed keeps requesting the progress of the tracked id.
\<close>

theorem fetchFormats_keeps_session:
  assumes "trim (videoUrl s) \<noteq> []"
  shows "let s1 = step Submit_url s;
             s2 = step (Formats_settled r) s1
         in progressCard_hidden s1 \<and> downloadComplete_hidden s1 \<and> downloadError_hidden s1 \<and>
            requests s1 = requests s @ [POST ''/fetch_formats'' (Fetch_body (trim (videoUrl s)))] \<and>
            currentDownloadId s1 = currentDownloadId s \<and>
            progressInterval s1 = progressInterval s \<and>
            timers s1 = timers s \<and>
            currentDownloadId s2 = currentDownloadId s \<and>
            progressInterval s2 = progressInterval s \<and>
            timers s2 = timers s \<and>
            (h \<in> timers s \<and> currentDownloadId s = Some d \<and> d \<noteq> [] \<longrightarrow>
               requests (step (Timer_fires h) s1) = requests s1 @ [GET (''/progress/'' @ d)] \<and>
               requests (step (Timer_fires h) s2) = requests s2 @ [GET (''/progress/'' @ d)])"
proof -
  have hidden: "progressCard_hidden (fetchFormats s)" "downloadComplete_hidden (fetchFormats s)"
    "downloadError_hidden (fetchFormats s)"
    using assms by (simp_all add: fetchFormats_def Let_def resetUI_def)
  have req: "requests (fetchFormats s) =
      requests s @ [POST ''/fetch_formats'' (Fetch_body (trim (videoUrl s)))]"
    using assms by (simp add: fetchFormats_requests)
  have tick: "requests (step (Timer_fires h) t) = requests t @ [GET (''/progress/'' @ d)]"
    if "h \<in> timers t" "currentDownloadId t = Some d" "d \<noteq> []" for t
    using that by (simp add: progress_tick_requests)
  have "h \<in> timers s \<and> currentDownloadId s = Some d \<and> d \<noteq> [] \<longrightarrow>
      requests (step (Timer_fires h) (fetchFormats s)) =
        requests (fetchFormats s) @ [GET (''/progress/'' @ d)] \<and>
      requests (step (Timer_fires h) (fetchFormats_settled r (fetchFormats s))) =
        requests (fetchFormats_settled r (fetchFormats s)) @ [GET (''/progress/'' @ d)]"
    by (intro impI conjI tick)
       (simp_all add: fetchFormats_tracking fetchFormats_settled_tracking)
  with hidden req show ?thesis
    unfolding Let_def step.simps(2,3)
    by (simp add: fetchFormats_tracking fetchFormats_settled_tracking)
qed

theorem fetchFormats_keeps_session_witness:
  "progressCard_hidden (step Submit_url polling_page) \<and>
   currentDownloadId (run [Submit_url, Formats_settled (Rejected ''Failed to fetch'')] polling_page)
     = Some ''abc123'' \<and>
   timers (run [Submit_url, Formats_settled (Rejected ''Failed to fetch'')] polling_page) = {1} \<and>
   requests (step (Timer_fires 1) (step Submit_url polling_page)) =
     requests (step Submit_url polling_page) @ [GET ''/progress/abc123'']"
proof -
  have u: "trim (videoUrl polling_page) \<noteq> []" by (simp add: polling_page_tracking)
  show ?thesis
    using fetchFormats_keeps_session[OF u, of "Rejected ''Failed to fetch''" 1 "''abc123''"]
    by (simp add: Let_def run_def polling_page_tracking fetchFormats_tracking
        fetchFormats_requests progress_tick_requests)
qed

text \<open>
  C7. When the URL field is empty or holds white space only, \<^verbatim>\<open>fetchFormats\<close> shows the
  alert \<^verbatim>\<open>Error: Please enter a video URL\<close> and changes nothing else: no request is
  issued. When no format radio is checked, \<^verbatim>\<open>startDownload\<close> shows the alert
  \<^verbatim>\<open>Error: Please select a format\<close> and changes nothing else: no request is issued.
\<close>

theorem local_validation_no_request:
  "((\<forall>c\<in>set (videoUrl s). js_whitespace c) \<longrightarrow>
      step Submit_url s = s\<lparr>alerts := alerts s @ [''Error: Please enter a video URL'']\<rparr> \<and>
      requests (step Submit_url s) = requests s) \<and>
   (find radio_checked (formatsList_rows t) = None \<longrightarrow>
      step Click_download t = t\<lparr>alerts := alerts t @ [''Error: Please select a format'']\<rparr> \<and>
      requests (step Click_download t) = requests t)"
proof (intro conjI impI)
  assume "\<forall>c\<in>set (videoUrl s). js_whitespace c"
  then have e: "trim (videoUrl s) = []" by (simp add: trim_empty_iff)
  then show "step Submit_url s = s\<lparr>alerts := alerts s @ [''Error: Please enter a video URL'']\<rparr>"
    by (simp add: fetchFormats_def showError_def)
  from e show "requests (step Submit_url s) = requests s"
    by (simp add: fetchFormats_requests)
next
  assume n: "find radio_checked (formatsList_rows t) = None"
  then show "step Click_download t = t\<lparr>alerts := alerts t @ [''Error: Please select a format'']\<rparr>"
    by (simp add: startDownload_def showError_def)
  from n show "requests (step Click_download t) = requests t"
    by (simp add: startDownload_def showError_def)
qed

theorem local_validation_no_request_witness:
  "run [Type_url ''  '', Submit_url] fresh_page =
     fresh_page\<lparr>videoUrl := ''  '', alerts := [''Error: Please enter a video URL'']\<rparr> \<and>
   requests (step Click_download fresh_page) = [] \<and>
   alerts (step Click_download fresh_page) = [''Error: Please select a format'']"
proof -
  have w: "\<forall>c\<in>set (videoUrl (fresh_page\<lparr>videoUrl := ''  ''\<rparr>)). js_whitespace c"
    by (simp add: js_whitespace_def)
  have n: "find radio_checked (formatsList_rows fresh_page) = None"
    by (simp add: fresh_page_def)
  show ?thesis
    using local_validation_no_request[of "fresh_page\<lparr>videoUrl := ''  ''\<rparr>" fresh_page] w n
    by (simp add: run_def fresh_page_def)
qed

section \<open>The rendered list of formats\<close>

lemma fetchFormats_settled_ok:
  "fetchFormats_settled (Response True data) s =
     (displayFormats (formats data) (displayVideoInfo data s))
       \<lparr>fetchBtn_disabled := False, fetchBtn_innerHTML := Fetch_Formats\<rparr>"
  by (simp add: fetchFormats_settled_def)



text \<open>
  C9. When the fetch settles with a successful response that holds no format (an
  empty list, or no \<^verbatim>\<open>formats\<close> property), the download control is not displayed, the
  list of formats holds the warning notice and no row, and no format is selected.
\<close>

theorem no_formats_hides_download:
  assumes "formats data = None \<or> formats data = Some []"
  shows "let s' = step (Formats_settled (Response True data)) s
         in downloadBtn_display s' = ''none'' \<and>
            formatsList_rows s' = [] \<and>
            formatsList_warning s' \<and>
            find radio_checked (formatsList_rows s') = None"
  using assms
  by (auto simp: Let_def fetchFormats_settled_ok displayFormats_empty)

theorem no_formats_hides_download_witness:
  "downloadBtn_display
     (step (Formats_settled (Response True (example_info\<lparr>formats := Some []\<rparr>))) polling_page)
     = ''none'' \<and>
   formatsList_rows
     (step (Formats_settled (Response True (example_info\<lparr>formats := None\<rparr>))) polling_page) = [] \<and>
   formatsList_warning
     (step (Formats_settled (Response True (example_info\<lparr>formats := None\<rparr>))) polling_page)"
proof -
  have a: "formats (example_info\<lparr>formats := Some []\<rparr>) = None \<or>
           formats (example_info\<lparr>formats := Some []\<rparr>) = Some []" by simp
  have b: "formats (example_info\<lparr>formats := None\<rparr>) = None \<or>
           formats (example_info\<lparr>formats := None\<rparr>) = Some []" by simp
  show ?thesis
    using no_formats_hides_download[OF a, of polling_page]
      no_formats_hides_download[OF b, of polling_page]
    by (simp add: Let_def)
qed

end
